theory Spec2Isabelle
  imports Main "HOL-Library.Word"
begin

section \<open>ConfidentialStakePoint: the confidential stake ledger\<close>

text \<open>
  A shallow embedding of the Solidity contract \<^verbatim>\<open>ConfidentialStakePoint\<close>
  (\<^verbatim>\<open>src/unnamed/part_000\<close>): its storage, its three state-changing entry points
  \<^verbatim>\<open>stake\<close>, \<^verbatim>\<open>requestUnstake\<close> (both overloads) and \<^verbatim>\<open>finalizeUnstake\<close>, and
  the internal \<^verbatim>\<open>_requestUnstake\<close>.

  A call either reverts, which is a value \<open>Inl error\<close> carrying no state (the host
  discards every effect of a reverted call), or returns, which is \<open>Inr\<close> of the
  result and the new state.
\<close>

subsection \<open>Solidity value types\<close>

type_synonym address = "160 word"
type_synonym uint256 = "256 word"
type_synonym uint64 = "64 word"
type_synonym bytes32 = "256 word"
type_synonym bytes = "8 word list"

text \<open>\<^verbatim>\<open>euint64\<close> and \<^verbatim>\<open>externalEuint64\<close> are user-defined value types over \<^verbatim>\<open>bytes32\<close>:
  opaque ciphertext handles.\<close>

type_synonym euint64 = "256 word"
type_synonym externalEuint64 = "256 word"

datatype event =
    Staked address uint256 uint64
  | UnstakeRequested address euint64
  | UnstakeFinalized address uint64 uint256

text \<open>
  The three custom errors of the contract, the authorisation error it raises itself in
  the handle overload of \<^verbatim>\<open>requestUnstake\<close>, the downcast error of \<^verbatim>\<open>SafeCast\<close>, the
  arithmetic panic of checked Solidity 0.8 arithmetic, and \<open>LibraryRevert\<close> for a
  revert raised inside the inherited token or the FHE library.
\<close>

datatype error =
    InvalidStakeAmount
  | InvalidUnstakeRequest euint64
  | TransferFailed
  | ERC7984UnauthorizedUseOfEncryptedAmount euint64 address
  | SafeCastOverflowedUintDowncast nat uint256
  | Panic
  | LibraryRevert

subsection \<open>Storage\<close>

text \<open>
  \<open>unstakeRequests\<close> is the Solidity mapping \<^verbatim>\<open>_unstakeRequests\<close>: a total function
  whose unwritten slots read \<^verbatim>\<open>address(0)\<close>. \<open>ethBalance\<close> is the contract's own ETH
  balance in wei (a natural number: the ETH supply is far below \<open>2 ^ 256\<close>, the EVM
  balance never wraps). \<open>events\<close> is the log of the contract's own three events, oldest
  first. \<open>fhe\<close> is everything the inherited \<^verbatim>\<open>ERC7984\<close> token and the \<^verbatim>\<open>FHE\<close> library
  keep: encrypted balances, total supply, access-control lists, their own events.
\<close>

record 'e state =
  unstakeRequests :: "euint64 \<Rightarrow> address"
  ethBalance :: nat
  events :: "event list"
  fhe :: 'e

subsection \<open>The external collaborators\<close>

text \<open>
  The contract imports \<^verbatim>\<open>ERC7984\<close> and \<^verbatim>\<open>FHE\<close> from external packages. Their
  operations are taken as a parameter: a record of functions over the library state
  \<open>'e\<close>, each returning \<open>None\<close> where the library reverts. None of them reads or
  writes \<^verbatim>\<open>_unstakeRequests\<close>, which is private to the contract, or moves ETH.
  \<open>mint\<close> and \<open>burn\<close> are \<^verbatim>\<open>ERC7984._mint\<close> and \<^verbatim>\<open>ERC7984._burn\<close>; the others are
  the functions of \<^verbatim>\<open>FHE\<close> of the same names. \<open>fromExternal\<close> takes the caller first,
  because \<^verbatim>\<open>FHE.fromExternal\<close> binds the input proof to \<^verbatim>\<open>msg.sender\<close>.
\<close>

record 'e engine =
  asEuint64 :: "uint64 \<Rightarrow> 'e \<Rightarrow> (euint64 \<times> 'e) option"
  mint :: "address \<Rightarrow> euint64 \<Rightarrow> 'e \<Rightarrow> (euint64 \<times> 'e) option"
  burn :: "address \<Rightarrow> euint64 \<Rightarrow> 'e \<Rightarrow> (euint64 \<times> 'e) option"
  fromExternal :: "address \<Rightarrow> externalEuint64 \<Rightarrow> bytes \<Rightarrow> 'e \<Rightarrow> (euint64 \<times> 'e) option"
  isAllowed :: "euint64 \<Rightarrow> address \<Rightarrow> 'e \<Rightarrow> bool"
  makePubliclyDecryptable :: "euint64 \<Rightarrow> 'e \<Rightarrow> 'e option"
  checkSignatures :: "bytes32 list \<Rightarrow> bytes \<Rightarrow> bytes \<Rightarrow> 'e \<Rightarrow> 'e option"

text \<open>
  The code of the address that receives ETH in \<^verbatim>\<open>finalizeUnstake\<close> is the other
  parameter. \<open>recv to v s\<close> is what the code at \<open>to\<close> does when it is called with \<open>v\<close>
  wei and empty calldata while the ledger is in state \<open>s\<close>: \<open>None\<close> when it reverts,
  \<open>Some s'\<close> when it returns, \<open>s'\<close> being the ledger as the recipient's calls back into
  it have left it. A plain account is \<open>\<lambda>to v s. Some s\<close>. A receiver describes the code
  within one transaction: what else the EVM shows that code, \<^verbatim>\<open>tx.origin\<close> in particular,
  is fixed there, so that code which reads it is one receiver for each originator, and
  two transactions are compared with a receiver each.
\<close>

type_synonym 'e receiver = "address \<Rightarrow> uint256 \<Rightarrow> 'e state \<Rightarrow> 'e state option"

subsection \<open>Constants and arithmetic\<close>

definition STAKE_SCALE :: uint256 where
  "STAKE_SCALE = 1000000000000"

definition uint64_max :: uint256 where
  "uint64_max = 18446744073709551615"

text \<open>\<^verbatim>\<open>SafeCast.toUint64\<close>: reverts when the value does not fit, else truncates.\<close>

definition toUint64 :: "uint256 \<Rightarrow> error + uint64" where
  "toUint64 v =
     (if v > uint64_max then Inl (SafeCastOverflowedUintDowncast 64 v)
      else Inr (ucast v))"

text \<open>Checked multiplication of Solidity 0.8 on \<^verbatim>\<open>uint256\<close>: panics on overflow.\<close>

definition checked_mul :: "uint256 \<Rightarrow> uint256 \<Rightarrow> error + uint256" where
  "checked_mul a b =
     (if unat a * unat b < 2 ^ 256 then Inr (a * b) else Inl Panic)"

text \<open>\<^verbatim>\<open>abi.encode\<close> of one \<^verbatim>\<open>uint64\<close>: the value as 32 big-endian bytes.\<close>

definition abi_encode_uint64 :: "uint64 \<Rightarrow> bytes" where
  "abi_encode_uint64 c =
     map (\<lambda>i. ucast (drop_bit (8 * (31 - i)) (ucast c :: uint256))) [0..<32]"

subsection \<open>The host's transaction semantics\<close>

text \<open>
  A reverted call leaves storage, balance and log as they were before the call; a call
  that returns commits its state.
\<close>

definition committed :: "'e state \<Rightarrow> error + 'a \<times> 'e state \<Rightarrow> 'e state" where
  "committed s r = (case r of Inl _ \<Rightarrow> s | Inr (_, s') \<Rightarrow> s')"

text \<open>
  The low-level \<^verbatim>\<open>to.call{value: v}("")\<close>: it fails when the balance does not cover
  \<open>v\<close>; otherwise the value leaves the balance and the recipient's code runs. A failed
  call undoes the debit and whatever the recipient did.
\<close>

definition call_value :: "'e receiver \<Rightarrow> address \<Rightarrow> uint256 \<Rightarrow> 'e state \<Rightarrow> 'e state option" where
  "call_value recv to v s =
     (if ethBalance s < unat v then None
      else recv to v (s\<lparr>ethBalance := ethBalance s - unat v\<rparr>))"

subsection \<open>The entry points\<close>

text \<open>
  \<^verbatim>\<open>stake\<close> is payable: \<^verbatim>\<open>msg.value\<close> is credited to the contract before the body
  runs.
\<close>

definition stake ::
  "'e engine \<Rightarrow> address \<Rightarrow> uint256 \<Rightarrow> 'e state \<Rightarrow> error + euint64 \<times> 'e state" where
  "stake E sender val s0 =
     (let s = s0\<lparr>ethBalance := ethBalance s0 + unat val\<rparr> in
      if val = 0 \<or> val mod STAKE_SCALE \<noteq> 0 then Inl InvalidStakeAmount
      else
        let scaled = val div STAKE_SCALE in
        if scaled > uint64_max then Inl InvalidStakeAmount
        else
          case toUint64 scaled of
            Inl e \<Rightarrow> Inl e
          | Inr stakeUnits \<Rightarrow>
              (case asEuint64 E stakeUnits (fhe s) of
                 None \<Rightarrow> Inl LibraryRevert
               | Some (amt, e1) \<Rightarrow>
                   (case mint E sender amt e1 of
                      None \<Rightarrow> Inl LibraryRevert
                    | Some (mintedAmount, e2) \<Rightarrow>
                        Inr (mintedAmount,
                             s\<lparr>fhe := e2,
                               events := events s @ [Staked sender val stakeUnits]\<rparr>))))"

definition requestUnstake_internal ::
  "'e engine \<Rightarrow> address \<Rightarrow> euint64 \<Rightarrow> 'e state \<Rightarrow> error + euint64 \<times> 'e state" where
  "requestUnstake_internal E from amount s =
     (case burn E from amount (fhe s) of
        None \<Rightarrow> Inl LibraryRevert
      | Some (burntAmount, e1) \<Rightarrow>
          (case makePubliclyDecryptable E burntAmount e1 of
             None \<Rightarrow> Inl LibraryRevert
           | Some e2 \<Rightarrow>
               if unstakeRequests s burntAmount \<noteq> 0
               then Inl (InvalidUnstakeRequest burntAmount)
               else Inr (burntAmount,
                         s\<lparr>unstakeRequests := (unstakeRequests s)(burntAmount := from),
                           fhe := e2,
                           events := events s @ [UnstakeRequested from burntAmount]\<rparr>)))"

text \<open>The overload taking an externally encrypted amount and its input proof.\<close>

definition requestUnstake_external ::
  "'e engine \<Rightarrow> address \<Rightarrow> externalEuint64 \<Rightarrow> bytes \<Rightarrow> 'e state
     \<Rightarrow> error + euint64 \<times> 'e state" where
  "requestUnstake_external E sender encryptedAmount inputProof s =
     (case fromExternal E sender encryptedAmount inputProof (fhe s) of
        None \<Rightarrow> Inl LibraryRevert
      | Some (amount, e1) \<Rightarrow> requestUnstake_internal E sender amount (s\<lparr>fhe := e1\<rparr>))"

text \<open>The overload taking a handle the caller is already allowed to use.\<close>

definition requestUnstake ::
  "'e engine \<Rightarrow> address \<Rightarrow> euint64 \<Rightarrow> 'e state \<Rightarrow> error + euint64 \<times> 'e state" where
  "requestUnstake E sender amount s =
     (if \<not> isAllowed E amount sender (fhe s)
      then Inl (ERC7984UnauthorizedUseOfEncryptedAmount amount sender)
      else requestUnstake_internal E sender amount s)"

text \<open>
  \<^verbatim>\<open>finalizeUnstake\<close>, in the order of its statements: the lookup and the \<^verbatim>\<open>delete\<close>
  (lines 57 to 61), the signature check on the one handle and the encoded clear value
  (lines 63 to 67), the product, the transfer and the event (lines 69 to 75).
  \<open>sender\<close> is \<^verbatim>\<open>msg.sender\<close>, which the body never reads.
\<close>

definition lookup_and_delete :: "'e state \<Rightarrow> euint64 \<Rightarrow> error + address \<times> 'e state" where
  "lookup_and_delete s burntAmount =
     (let to = unstakeRequests s burntAmount in
      if to = 0 then Inl (InvalidUnstakeRequest burntAmount)
      else Inr (to, s\<lparr>unstakeRequests := (unstakeRequests s)(burntAmount := 0)\<rparr>))"

definition verify_proof ::
  "'e engine \<Rightarrow> euint64 \<Rightarrow> uint64 \<Rightarrow> bytes \<Rightarrow> 'e state \<Rightarrow> error + 'e state" where
  "verify_proof E burntAmount burntAmountCleartext decryptionProof s =
     (let handles = [burntAmount];
          cleartexts = abi_encode_uint64 burntAmountCleartext in
      case checkSignatures E handles cleartexts decryptionProof (fhe s) of
        None \<Rightarrow> Inl LibraryRevert
      | Some e1 \<Rightarrow> Inr (s\<lparr>fhe := e1\<rparr>))"

definition release_funds ::
  "'e receiver \<Rightarrow> address \<Rightarrow> uint64 \<Rightarrow> 'e state \<Rightarrow> error + unit \<times> 'e state" where
  "release_funds recv to burntAmountCleartext s =
     (case checked_mul (ucast burntAmountCleartext) STAKE_SCALE of
        Inl e \<Rightarrow> Inl e
      | Inr weiAmount \<Rightarrow>
          (case call_value recv to weiAmount s of
             None \<Rightarrow> Inl TransferFailed
           | Some s' \<Rightarrow>
               Inr ((), s'\<lparr>events := events s' @
                              [UnstakeFinalized to burntAmountCleartext weiAmount]\<rparr>)))"

definition finalizeUnstake ::
  "'e engine \<Rightarrow> 'e receiver \<Rightarrow> address \<Rightarrow> euint64 \<Rightarrow> uint64 \<Rightarrow> bytes \<Rightarrow> 'e state
     \<Rightarrow> error + unit \<times> 'e state" where
  "finalizeUnstake E recv sender burntAmount burntAmountCleartext decryptionProof s =
     (case lookup_and_delete s burntAmount of
        Inl e \<Rightarrow> Inl e
      | Inr (to, s1) \<Rightarrow>
          (case verify_proof E burntAmount burntAmountCleartext decryptionProof s1 of
             Inl e \<Rightarrow> Inl e
           | Inr s2 \<Rightarrow> release_funds recv to burntAmountCleartext s2))"

subsection \<open>What the ledger expects of its collaborators\<close>

text \<open>
  Modelled from the spec: the accounting contract of the Encrypted-Value Engine and of
  the proof verifier, that is of \<^verbatim>\<open>ERC7984._mint\<close>, \<^verbatim>\<open>ERC7984._burn\<close> and the \<^verbatim>\<open>FHE\<close>
  library, whose code is not part of the repository. \<open>bal a e\<close> is the plaintext of the
  encrypted balance of account \<open>a\<close> and \<open>dec h e\<close> the plaintext behind handle \<open>h\<close>, in
  library state \<open>e\<close>. Encoding a unit count yields a handle for that count; minting
  adds the plaintext of the minted handle to the balance of the receiver; burning
  subtracts the plaintext of the burnt-amount handle it returns, which never exceeds
  the balance; the verifier accepts a clear value for a handle only when it is the
  plaintext of that handle; importing an external input, granting public decryption
  and verifying a proof change no balance and no plaintext.
\<close>

definition engine_accounting ::
  "'e engine \<Rightarrow> (address \<Rightarrow> 'e \<Rightarrow> nat) \<Rightarrow> (euint64 \<Rightarrow> 'e \<Rightarrow> nat) \<Rightarrow> bool" where
  "engine_accounting E bal dec \<longleftrightarrow>
     (\<forall>x e h e'. asEuint64 E x e = Some (h, e') \<longrightarrow>
        dec h e' = unat x \<and> (\<forall>a. bal a e' = bal a e)) \<and>
     (\<forall>a h e m e'. mint E a h e = Some (m, e') \<longrightarrow>
        bal a e' = bal a e + dec h e) \<and>
     (\<forall>a h e b e'. burn E a h e = Some (b, e') \<longrightarrow>
        dec b e' \<le> bal a e \<and> bal a e' = bal a e - dec b e') \<and>
     (\<forall>a x p e h e'. fromExternal E a x p e = Some (h, e') \<longrightarrow>
        (\<forall>b. bal b e' = bal b e)) \<and>
     (\<forall>h e e'. makePubliclyDecryptable E h e = Some e' \<longrightarrow>
        (\<forall>a. bal a e' = bal a e) \<and> (\<forall>k. dec k e' = dec k e)) \<and>
     (\<forall>h c p e e'. checkSignatures E [h] (abi_encode_uint64 c) p e = Some e' \<longrightarrow>
        dec h e = unat c \<and> (\<forall>a. bal a e' = bal a e))"

subsection \<open>The registered requests\<close>

text \<open>
  \<open>live\<close> records the requests that \<^verbatim>\<open>requestUnstake\<close> has registered and
  \<^verbatim>\<open>finalizeUnstake\<close> has not yet removed, each with its caller. The storage agrees
  with it when every recorded handle holds its recorded, nonzero caller and every other
  slot reads \<^verbatim>\<open>address(0)\<close>.
\<close>

definition registry_inv :: "'e state \<Rightarrow> (euint64 \<rightharpoonup> address) \<Rightarrow> bool" where
  "registry_inv s live \<longleftrightarrow>
     (\<forall>h. case live h of
             None \<Rightarrow> unstakeRequests s h = 0
           | Some a \<Rightarrow> a \<noteq> 0 \<and> unstakeRequests s h = a)"

subsection \<open>A plaintext engine and the scenarios of the test suite\<close>

text \<open>
  Modelled from the spec: a deterministic stand-in for the Encrypted-Value Engine and
  the proof verifier, whose code is not part of the repository, for the concrete
  scenarios. It keeps plaintexts: every handle stands for a 64-bit value, handles are
  issued from a counter, a mint that would overflow the balance reverts, and a burn of
  more than the balance burns nothing. The verifier accepts exactly the encoded
  plaintexts of the handles it is given.
\<close>

record plain_fhe =
  cleartext :: "euint64 \<Rightarrow> uint64"
  balance_of :: "address \<Rightarrow> uint64"
  next_handle :: euint64

definition fresh :: "uint64 \<Rightarrow> plain_fhe \<Rightarrow> euint64 \<times> plain_fhe" where
  "fresh x e =
     (next_handle e,
      e\<lparr>cleartext := (cleartext e)(next_handle e := x), next_handle := next_handle e + 1\<rparr>)"

definition plain_mint :: "address \<Rightarrow> euint64 \<Rightarrow> plain_fhe \<Rightarrow> (euint64 \<times> plain_fhe) option" where
  "plain_mint a h e =
     (if a = 0 \<or> 2 ^ 64 \<le> unat (balance_of e a) + unat (cleartext e h) then None
      else Some (h, e\<lparr>balance_of := (balance_of e)(a := balance_of e a + cleartext e h)\<rparr>))"

definition plain_burn :: "address \<Rightarrow> euint64 \<Rightarrow> plain_fhe \<Rightarrow> (euint64 \<times> plain_fhe) option" where
  "plain_burn a h e =
     (if a = 0 then None
      else
        let x = (if cleartext e h \<le> balance_of e a then cleartext e h else 0);
            (b, e1) = fresh x e
        in Some (b, e1\<lparr>balance_of := (balance_of e)(a := balance_of e a - x)\<rparr>))"

definition plain_checkSignatures ::
  "bytes32 list \<Rightarrow> bytes \<Rightarrow> bytes \<Rightarrow> plain_fhe \<Rightarrow> plain_fhe option" where
  "plain_checkSignatures hs cleartexts proof e =
     (if cleartexts = concat (map (\<lambda>h. abi_encode_uint64 (cleartext e h)) hs)
      then Some e else None)"

definition plain_engine :: "plain_fhe engine" where
  "plain_engine =
     \<lparr>asEuint64 = (\<lambda>x e. Some (fresh x e)),
      mint = plain_mint,
      burn = plain_burn,
      fromExternal = (\<lambda>a x p e. if p = [] then None else Some (fresh (ucast x) e)),
      isAllowed = (\<lambda>h a e. h < next_handle e),
      makePubliclyDecryptable = (\<lambda>h e. Some e),
      checkSignatures = plain_checkSignatures\<rparr>"

text \<open>An externally owned account accepts any transfer and calls nothing.\<close>

definition eoa :: "'e receiver" where
  "eoa to v s = Some s"

text \<open>A recipient whose code always reverts.\<close>

definition rejecting :: "'e receiver" where
  "rejecting to v s = None"

definition alice :: address where
  "alice = 0xA11CE"

definition bob :: address where
  "bob = 0xB0B"

definition genesis :: "plain_fhe state" where
  "genesis =
     \<lparr>unstakeRequests = (\<lambda>h. 0), ethBalance = 0, events = [],
      fhe = \<lparr>cleartext = (\<lambda>h. 0), balance_of = (\<lambda>a. 0), next_handle = 1\<rparr>\<rparr>"

text \<open>After Alice has staked \<open>2 * 10^18\<close> wei: two million units.\<close>

definition staked :: "plain_fhe state" where
  "staked =
     \<lparr>unstakeRequests = (\<lambda>h. 0), ethBalance = 2000000000000000000,
      events = [Staked alice 2000000000000000000 2000000],
      fhe = \<lparr>cleartext = (\<lambda>h. 0)(1 := 2000000),
             balance_of = (\<lambda>a. 0)(alice := 2000000),
             next_handle = 2\<rparr>\<rparr>"

text \<open>After Alice has requested to unstake one million units: the burnt amount is handle 3.\<close>

definition requested :: "plain_fhe state" where
  "requested =
     \<lparr>unstakeRequests = (\<lambda>h. 0)(3 := alice), ethBalance = 2000000000000000000,
      events = [Staked alice 2000000000000000000 2000000, UnstakeRequested alice 3],
      fhe = \<lparr>cleartext = (\<lambda>h. 0)(1 := 2000000, 2 := 1000000, 3 := 1000000),
             balance_of = (\<lambda>a. 0)(alice := 1000000),
             next_handle = 4\<rparr>\<rparr>"

text \<open>After the request has been finalized with its clear value.\<close>

definition finalized :: "plain_fhe state" where
  "finalized =
     \<lparr>unstakeRequests = (\<lambda>h. 0), ethBalance = 1000000000000000000,
      events = [Staked alice 2000000000000000000 2000000, UnstakeRequested alice 3,
                UnstakeFinalized alice 1000000 1000000000000000000],
      fhe = \<lparr>cleartext = (\<lambda>h. 0)(1 := 2000000, 2 := 1000000, 3 := 1000000),
             balance_of = (\<lambda>a. 0)(alice := 1000000),
             next_handle = 4\<rparr>\<rparr>"

text \<open>A recipient that accepts only at Alice's address: anyone else's code reverts.\<close>

definition alice_only :: "'e receiver" where
  "alice_only to v s = (if to = alice then Some s else None)"

text \<open>
  A recipient that, while it receives, calls \<^verbatim>\<open>finalizeUnstake\<close> again for handle 3
  and carries on whether or not that call reverts.
\<close>

definition double_dip :: "plain_fhe receiver" where
  "double_dip to v t = Some (committed t (finalizeUnstake plain_engine eoa to 3 1000000 [] t))"

text \<open>The state \<open>requested\<close> with the handle counter set back, so that the next burn
  yields handle 3 again.\<close>

definition replayed :: "plain_fhe state" where
  "replayed = requested\<lparr>fhe := (fhe requested)\<lparr>next_handle := 3\<rparr>\<rparr>"

text \<open>
  A recipient that, while it receives, stakes \<open>10^12\<close> wei (one unit) in its own name,
  and reverts if that stake does.
\<close>

definition restaker :: "plain_fhe receiver" where
  "restaker to v t =
     (case stake plain_engine to 1000000000000 t of
        Inl e \<Rightarrow> None
      | Inr (m, t') \<Rightarrow> Some t')"

text \<open>After the request has been finalized with \<open>restaker\<close> as the code of the recipient.\<close>

definition restaked :: "plain_fhe state" where
  "restaked =
     \<lparr>unstakeRequests = (\<lambda>h. 0), ethBalance = 1000001000000000000,
      events = [Staked alice 2000000000000000000 2000000, UnstakeRequested alice 3,
                Staked alice 1000000000000 1,
                UnstakeFinalized alice 1000000 1000000000000000000],
      fhe = \<lparr>cleartext = (\<lambda>h. 0)(1 := 2000000, 2 := 1000000, 3 := 1000000, 4 := 1),
             balance_of = (\<lambda>a. 0)(alice := 1000001),
             next_handle = 5\<rparr>\<rparr>"

text \<open>
  Modelled from the spec: an engine that issues a handle it has issued before, which
  the duplicate-handle guard provides for and the spec leaves open. It is the plaintext
  engine, except that every burn yields handle 3 for the burnt amount.
\<close>

definition reissuing_burn ::
  "address \<Rightarrow> euint64 \<Rightarrow> plain_fhe \<Rightarrow> (euint64 \<times> plain_fhe) option" where
  "reissuing_burn a h e =
     (if a = 0 then None
      else
        let x = (if cleartext e h \<le> balance_of e a then cleartext e h else 0)
        in Some (3, e\<lparr>cleartext := (cleartext e)(3 := x), next_handle := 4,
                      balance_of := (balance_of e)(a := balance_of e a - x)\<rparr>))"

definition reissuing_engine :: "plain_fhe engine" where
  "reissuing_engine = plain_engine\<lparr>burn := reissuing_burn\<rparr>"

text \<open>
  A recipient that, while it receives, requests an unstake of the amount behind handle 2
  in its own name, and reverts if that request does.
\<close>

definition rerequester :: "plain_fhe receiver" where
  "rerequester to v t =
     (case requestUnstake reissuing_engine to 2 t of
        Inl e \<Rightarrow> None
      | Inr (b, t') \<Rightarrow> Some t')"

text \<open>After the request has been finalized with \<open>rerequester\<close> as the code of the recipient:
  handle 3 is registered anew.\<close>

definition rerequested :: "plain_fhe state" where
  "rerequested =
     \<lparr>unstakeRequests = (\<lambda>h. 0)(3 := alice), ethBalance = 1000000000000000000,
      events = [Staked alice 2000000000000000000 2000000, UnstakeRequested alice 3,
                UnstakeRequested alice 3,
                UnstakeFinalized alice 1000000 1000000000000000000],
      fhe = \<lparr>cleartext = (\<lambda>h. 0)(1 := 2000000, 2 := 1000000, 3 := 1000000),
             balance_of = (\<lambda>a. 0)(alice := 0),
             next_handle = 4\<rparr>\<rparr>"

text \<open>After handle 3 has been finalized a second time.\<close>

definition drained :: "plain_fhe state" where
  "drained =
     \<lparr>unstakeRequests = (\<lambda>h. 0), ethBalance = 0,
      events = [Staked alice 2000000000000000000 2000000, UnstakeRequested alice 3,
                UnstakeRequested alice 3,
                UnstakeFinalized alice 1000000 1000000000000000000,
                UnstakeFinalized alice 1000000 1000000000000000000],
      fhe = \<lparr>cleartext = (\<lambda>h. 0)(1 := 2000000, 2 := 1000000, 3 := 1000000),
             balance_of = (\<lambda>a. 0)(alice := 0),
             next_handle = 4\<rparr>\<rparr>"

definition carol :: address where
  "carol = 0xCA401"

text \<open>
  The code of a recipient that accepts ETH only in a transaction that Bob has sent (it
  reverts unless \<^verbatim>\<open>tx.origin\<close> is his address), as it acts in a transaction sent by
  \<open>origin\<close>.
\<close>

definition owner_only :: "address \<Rightarrow> 'e receiver" where
  "owner_only origin to v s = (if origin = bob then Some s else None)"

section \<open>Arithmetic of the stake scale\<close>

lemma unat_STAKE_SCALE: "unat STAKE_SCALE = 1000000000000"
  by (simp add: STAKE_SCALE_def)

lemma unat_uint64_max: "unat uint64_max = 18446744073709551615"
  by (simp add: uint64_max_def)

lemma unat_ucast_64_256: "unat (ucast (c :: uint64) :: uint256) = unat c"
  by transfer simp

lemma unat_uint64_le: "unat (c :: uint64) \<le> 18446744073709551615"
proof -
  have "unat c < 2 ^ 64"
    using unsigned_less [of c, where ?'a = nat] by simp
  then show ?thesis by simp
qed

lemma wei_product_bound:
  "unat (c :: uint64) * 1000000000000 \<le> 18446744073709551615 * 1000000000000"
  using unat_uint64_le [of c] by simp

lemma wei_product_lt: "unat (c :: uint64) * 1000000000000 < 2 ^ 256"
proof -
  have "(18446744073709551615 :: nat) * 1000000000000 < 2 ^ 256" by simp
  with wei_product_bound [of c] show ?thesis by linarith
qed

lemma unat_wei_product:
  "unat ((ucast (c :: uint64) :: uint256) * STAKE_SCALE) = unat c * 1000000000000"
proof -
  have "unat ((ucast c :: uint256) * STAKE_SCALE)
          = (unat (ucast c :: uint256) * unat STAKE_SCALE) mod 2 ^ 256"
    by (simp add: unat_word_ariths)
  also have "\<dots> = (unat c * 1000000000000) mod 2 ^ 256"
    by (simp only: unat_ucast_64_256 unat_STAKE_SCALE)
  also have "\<dots> = unat c * 1000000000000"
    using wei_product_lt [of c] by simp
  finally show ?thesis .
qed

lemma checked_mul_scale:
  "checked_mul (ucast (c :: uint64)) STAKE_SCALE = Inr (ucast c * STAKE_SCALE)"
  using wei_product_lt [of c]
  by (simp add: checked_mul_def unat_ucast_64_256 unat_STAKE_SCALE)

section \<open>Validation of the staked amount\<close>

lemma stake_guard:
  "(v = 0 \<or> v mod STAKE_SCALE \<noteq> 0 \<or> v div STAKE_SCALE > uint64_max) \<longleftrightarrow>
   (v = 0 \<or> unat v mod 1000000000000 \<noteq> 0 \<or> unat v div 1000000000000 > 18446744073709551615)"
proof -
  have m: "v mod STAKE_SCALE \<noteq> 0 \<longleftrightarrow> unat v mod 1000000000000 \<noteq> 0"
    by (simp add: unat_eq_zero [symmetric] unat_mod unat_STAKE_SCALE)
  have d: "v div STAKE_SCALE > uint64_max \<longleftrightarrow> unat v div 1000000000000 > 18446744073709551615"
    by (simp add: word_less_nat_alt unat_div unat_STAKE_SCALE unat_uint64_max)
  show ?thesis by (simp only: m d)
qed

lemma toUint64_fits: "\<not> v > uint64_max \<Longrightarrow> toUint64 v = Inr (ucast v)"
  by (simp add: toUint64_def)

lemma stake_rejected:
  "v = 0 \<or> v mod STAKE_SCALE \<noteq> 0 \<or> v div STAKE_SCALE > uint64_max
   \<Longrightarrow> stake E sender v s = Inl InvalidStakeAmount"
  by (auto simp: stake_def Let_def)

lemma stake_accepted:
  "\<not> (v = 0 \<or> v mod STAKE_SCALE \<noteq> 0 \<or> v div STAKE_SCALE > uint64_max)
   \<Longrightarrow> stake E sender v s =
     (case asEuint64 E (ucast (v div STAKE_SCALE)) (fhe s) of
        None \<Rightarrow> Inl LibraryRevert
      | Some (amt, e1) \<Rightarrow>
          (case mint E sender amt e1 of
             None \<Rightarrow> Inl LibraryRevert
           | Some (m, e2) \<Rightarrow>
               Inr (m, s\<lparr>ethBalance := ethBalance s + unat v, fhe := e2,
                         events := events s @ [Staked sender v (ucast (v div STAKE_SCALE))]\<rparr>)))"
  by (auto simp: stake_def Let_def toUint64_fits split: option.splits)

lemma stake_accepted_not_invalid:
  "\<not> (v = 0 \<or> v mod STAKE_SCALE \<noteq> 0 \<or> v div STAKE_SCALE > uint64_max)
   \<Longrightarrow> stake E sender v s \<noteq> Inl InvalidStakeAmount"
  by (simp add: stake_accepted split: option.splits)

text \<open>
  Claim C4. For every amount \<open>v\<close> of wei, \<^verbatim>\<open>stake\<close> fails with \<^verbatim>\<open>InvalidStakeAmount\<close>
  exactly when \<open>v\<close> is zero, or is not a multiple of the scale \<open>10^12\<close>, or \<open>v / 10^12\<close>
  exceeds \<open>2^64 - 1\<close>; whatever the library does, no other input yields this error.
  A rejected call commits nothing: the state after it, balances and event log
  included, is the state before it.
\<close>

theorem stake_rejection_iff:
  "(stake E sender v s = Inl InvalidStakeAmount \<longleftrightarrow>
      (v = 0 \<or> unat v mod 1000000000000 \<noteq> 0
        \<or> unat v div 1000000000000 > 18446744073709551615))
   \<and> (stake E sender v s = Inl InvalidStakeAmount \<longrightarrow>
        committed s (stake E sender v s) = s)"
proof
  show "stake E sender v s = Inl InvalidStakeAmount \<longleftrightarrow>
      (v = 0 \<or> unat v mod 1000000000000 \<noteq> 0
        \<or> unat v div 1000000000000 > 18446744073709551615)"
    unfolding stake_guard [of v, symmetric]
    using stake_rejected [of v E sender s] stake_accepted_not_invalid [of v E sender s]
    by (cases "v = 0 \<or> v mod STAKE_SCALE \<noteq> 0 \<or> v div STAKE_SCALE > uint64_max") simp_all
  show "stake E sender v s = Inl InvalidStakeAmount \<longrightarrow>
        committed s (stake E sender v s) = s"
    by (simp add: committed_def)
qed

theorem stake_rejection_iff_witness:
  "stake plain_engine alice 1 genesis = Inl InvalidStakeAmount
   \<and> committed genesis (stake plain_engine alice 1 genesis) = genesis
   \<and> stake plain_engine alice 2000000000000000000 genesis \<noteq> Inl InvalidStakeAmount"
  using stake_rejection_iff [of plain_engine alice 1 genesis]
    stake_rejection_iff [of plain_engine alice 2000000000000000000 genesis]
  by simp

section \<open>The released amount\<close>

lemma finalize_never_panics:
  "finalizeUnstake E recv sender h c p s \<noteq> Inl Panic"
  by (auto simp: finalizeUnstake_def lookup_and_delete_def verify_proof_def release_funds_def
      checked_mul_scale Let_def split: sum.splits option.splits prod.splits)

text \<open>
  Claim C10. For every 64-bit clear value \<open>c\<close> the checked product
  \<^verbatim>\<open>uint256(c) * STAKE_SCALE\<close> does not overflow: it is the exact product
  \<open>c * 10^12\<close>, at most \<open>(2^64 - 1) * 10^12 < 2^256\<close>, and \<^verbatim>\<open>finalizeUnstake\<close> never
  fails with the arithmetic panic.
\<close>

theorem wei_amount_never_overflows:
  "checked_mul (ucast (c :: uint64)) STAKE_SCALE = Inr (ucast c * STAKE_SCALE)
   \<and> unat ((ucast c :: uint256) * STAKE_SCALE) = unat c * 1000000000000
   \<and> unat c * 1000000000000 \<le> (2 ^ 64 - 1) * 1000000000000
   \<and> (2 ^ 64 - 1) * 1000000000000 < (2 :: nat) ^ 256
   \<and> finalizeUnstake E recv sender h c p s \<noteq> Inl Panic"
  using checked_mul_scale [of c] unat_wei_product [of c] wei_product_bound [of c]
    finalize_never_panics [of E recv sender h c p s]
  by simp

section \<open>The scenarios\<close>

lemma scenario_stake: "stake plain_engine alice 2000000000000000000 genesis = Inr (1, staked)"
  by (simp add: stake_def Let_def STAKE_SCALE_def uint64_max_def toUint64_def plain_engine_def
      fresh_def plain_mint_def genesis_def staked_def alice_def)

lemma scenario_request:
  "requestUnstake_external plain_engine alice 1000000 [1] staked = Inr (3, requested)"
  by (simp add: requestUnstake_external_def requestUnstake_internal_def plain_engine_def
      fresh_def plain_burn_def Let_def staked_def requested_def alice_def fun_upd_twist)

lemma scenario_finalize:
  "finalizeUnstake plain_engine eoa bob 3 1000000 [] requested = Inr ((), finalized)"
  by (simp add: finalizeUnstake_def lookup_and_delete_def verify_proof_def release_funds_def
      checked_mul_def call_value_def eoa_def plain_engine_def plain_checkSignatures_def
      Let_def requested_def finalized_def alice_def STAKE_SCALE_def fun_eq_iff)

lemma scenario_restake:
  "finalizeUnstake plain_engine restaker bob 3 1000000 [] requested = Inr ((), restaked)"
  by (simp add: finalizeUnstake_def lookup_and_delete_def verify_proof_def release_funds_def
      checked_mul_def call_value_def restaker_def stake_def toUint64_def uint64_max_def
      plain_engine_def plain_checkSignatures_def plain_mint_def fresh_def
      Let_def requested_def restaked_def alice_def STAKE_SCALE_def fun_eq_iff)

lemma scenario_reissued_request:
  "requestUnstake_external reissuing_engine alice 1000000 [1] staked = Inr (3, requested)"
  by (simp add: requestUnstake_external_def requestUnstake_internal_def reissuing_engine_def
      plain_engine_def fresh_def reissuing_burn_def Let_def staked_def requested_def alice_def
      fun_upd_twist)

lemma scenario_rerequest:
  "finalizeUnstake reissuing_engine rerequester bob 3 1000000 [] requested
     = Inr ((), rerequested)"
  by (simp add: finalizeUnstake_def lookup_and_delete_def verify_proof_def release_funds_def
      checked_mul_def call_value_def rerequester_def requestUnstake_def
      requestUnstake_internal_def reissuing_engine_def reissuing_burn_def
      plain_engine_def plain_checkSignatures_def
      Let_def requested_def rerequested_def alice_def STAKE_SCALE_def fun_eq_iff)

lemma scenario_second_finalize:
  "finalizeUnstake reissuing_engine eoa bob 3 1000000 [] rerequested = Inr ((), drained)"
  by (simp add: finalizeUnstake_def lookup_and_delete_def verify_proof_def release_funds_def
      checked_mul_def call_value_def eoa_def reissuing_engine_def
      plain_engine_def plain_checkSignatures_def
      Let_def rerequested_def drained_def alice_def STAKE_SCALE_def fun_eq_iff)

lemma scenario_owner:
  "finalizeUnstake plain_engine (owner_only bob) bob 3 1000000 [] requested = Inr ((), finalized)"
  by (simp add: finalizeUnstake_def lookup_and_delete_def verify_proof_def release_funds_def
      checked_mul_def call_value_def owner_only_def plain_engine_def plain_checkSignatures_def
      Let_def requested_def finalized_def alice_def STAKE_SCALE_def fun_eq_iff)

lemma scenario_stranger:
  "finalizeUnstake plain_engine (owner_only carol) carol 3 1000000 [] requested
     = Inl TransferFailed"
  by (simp add: finalizeUnstake_def lookup_and_delete_def verify_proof_def release_funds_def
      checked_mul_def call_value_def owner_only_def plain_engine_def plain_checkSignatures_def
      Let_def requested_def alice_def bob_def carol_def STAKE_SCALE_def)

section \<open>Finalization\<close>

lemma finalize_unknown:
  "unstakeRequests s h = 0 \<Longrightarrow>
   finalizeUnstake E recv sender h c p s = Inl (InvalidUnstakeRequest h)"
  by (simp add: finalizeUnstake_def lookup_and_delete_def)

lemma finalize_known:
  "unstakeRequests s h \<noteq> 0 \<Longrightarrow>
   finalizeUnstake E recv sender h c p s =
     (case checkSignatures E [h] (abi_encode_uint64 c) p (fhe s) of
        None \<Rightarrow> Inl LibraryRevert
      | Some e1 \<Rightarrow>
          (case call_value recv (unstakeRequests s h) (ucast c * STAKE_SCALE)
                  (s\<lparr>unstakeRequests := (unstakeRequests s)(h := 0), fhe := e1\<rparr>) of
             None \<Rightarrow> Inl TransferFailed
           | Some s' \<Rightarrow>
               Inr ((), s'\<lparr>events := events s' @
                   [UnstakeFinalized (unstakeRequests s h) c (ucast c * STAKE_SCALE)]\<rparr>)))"
  by (simp add: finalizeUnstake_def lookup_and_delete_def verify_proof_def release_funds_def
      checked_mul_scale Let_def split: option.splits)

lemma call_value_SomeD:
  "call_value recv to v s = Some t' \<Longrightarrow>
   unat v \<le> ethBalance s \<and> recv to v (s\<lparr>ethBalance := ethBalance s - unat v\<rparr>) = Some t'"
  by (simp add: call_value_def split: if_splits)

lemma finalize_InrD:
  assumes "finalizeUnstake E recv sender h c p s = Inr ((), s')"
  shows "\<exists>e1 t'. unstakeRequests s h \<noteq> 0
      \<and> checkSignatures E [h] (abi_encode_uint64 c) p (fhe s) = Some e1
      \<and> unat c * 1000000000000 \<le> ethBalance s
      \<and> recv (unstakeRequests s h) (ucast c * STAKE_SCALE)
           (s\<lparr>unstakeRequests := (unstakeRequests s)(h := 0), fhe := e1,
              ethBalance := ethBalance s - unat c * 1000000000000\<rparr>) = Some t'
      \<and> s' = t'\<lparr>events := events t' @
                 [UnstakeFinalized (unstakeRequests s h) c (ucast c * STAKE_SCALE)]\<rparr>"
proof -
  have known: "unstakeRequests s h \<noteq> 0"
    using assms finalize_unknown [of s h E recv sender c p] by auto
  from assms obtain e1 where e1: "checkSignatures E [h] (abi_encode_uint64 c) p (fhe s) = Some e1"
    by (auto simp: finalize_known [OF known] split: option.splits)
  from assms e1 obtain t' where
    cv: "call_value recv (unstakeRequests s h) (ucast c * STAKE_SCALE)
           (s\<lparr>unstakeRequests := (unstakeRequests s)(h := 0), fhe := e1\<rparr>) = Some t'"
    and s': "s' = t'\<lparr>events := events t' @
                 [UnstakeFinalized (unstakeRequests s h) c (ucast c * STAKE_SCALE)]\<rparr>"
    by (auto simp: finalize_known [OF known] split: option.splits)
  from call_value_SomeD [OF cv] have
    "unat c * 1000000000000 \<le> ethBalance s"
    "recv (unstakeRequests s h) (ucast c * STAKE_SCALE)
           (s\<lparr>unstakeRequests := (unstakeRequests s)(h := 0), fhe := e1,
              ethBalance := ethBalance s - unat c * 1000000000000\<rparr>) = Some t'"
    by (simp_all add: unat_wei_product)
  with known e1 s' show ?thesis by blast
qed

text \<open>
  Claim C1, as stated, fails when the handle is registered again while the first call
  runs: with an engine that issues handle 3 again, Alice's code requests another unstake
  while it receives the transfer of her first request; the first \<^verbatim>\<open>finalizeUnstake\<close> on
  handle 3 succeeds, and so does a second, which pays the new request.
\<close>

theorem finalize_twice_counterexample:
  "requestUnstake_external reissuing_engine alice 1000000 [1] staked = Inr (3, requested)
   \<and> finalizeUnstake reissuing_engine rerequester bob 3 1000000 [] requested
       = Inr ((), rerequested)
   \<and> finalizeUnstake reissuing_engine eoa bob 3 1000000 [] rerequested = Inr ((), drained)
   \<and> finalizeUnstake reissuing_engine eoa bob 3 1000000 [] rerequested
       \<noteq> Inl (InvalidUnstakeRequest 3)
   \<and> ethBalance rerequested - ethBalance drained = 1000000000000000000"
  using scenario_reissued_request scenario_rerequest scenario_second_finalize
  by (simp add: rerequested_def drained_def)

text \<open>
  Claim C1, amended. When \<^verbatim>\<open>finalizeUnstake\<close> on handle \<open>h\<close> has succeeded, and the code of
  the registered recipient, called with the released amount on a state in which \<open>h\<close> is
  unregistered, did not leave \<open>h\<close> registered anew, a second \<^verbatim>\<open>finalizeUnstake\<close> on \<open>h\<close>,
  by any caller, with any clear value, any proof and any recipient code, fails with
  \<^verbatim>\<open>InvalidUnstakeRequest\<close> for \<open>h\<close>; being reverted, it leaves the state, the ETH
  balance included, as it was.
\<close>

theorem finalize_replay_rejected:
  assumes first: "finalizeUnstake E recv sender h c p s = Inr ((), s')"
    and quiet: "\<forall>t t'. recv (unstakeRequests s h) (ucast c * STAKE_SCALE) t = Some t'
                  \<and> unstakeRequests t h = 0 \<longrightarrow> unstakeRequests t' h = 0"
  shows "finalizeUnstake E' recv' sender' h c' p' s' = Inl (InvalidUnstakeRequest h)
     \<and> committed s' (finalizeUnstake E' recv' sender' h c' p' s') = s'"
proof -
  from finalize_InrD [OF first] obtain e1 t' where
    r: "recv (unstakeRequests s h) (ucast c * STAKE_SCALE)
           (s\<lparr>unstakeRequests := (unstakeRequests s)(h := 0), fhe := e1,
              ethBalance := ethBalance s - unat c * 1000000000000\<rparr>) = Some t'"
    and s': "s' = t'\<lparr>events := events t' @
                 [UnstakeFinalized (unstakeRequests s h) c (ucast c * STAKE_SCALE)]\<rparr>"
    by blast
  have "unstakeRequests (s\<lparr>unstakeRequests := (unstakeRequests s)(h := 0), fhe := e1,
              ethBalance := ethBalance s - unat c * 1000000000000\<rparr>) h = 0"
    by simp
  with quiet r have "unstakeRequests t' h = 0" by blast
  with s' have "unstakeRequests s' h = 0" by simp
  then have "finalizeUnstake E' recv' sender' h c' p' s' = Inl (InvalidUnstakeRequest h)"
    by (rule finalize_unknown)
  then show ?thesis by (simp add: committed_def)
qed



lemma call_value_cong_registry:
  assumes "\<forall>a v t. unstakeRequests t h = 0 \<longrightarrow> recv a v t = recv' a v t"
    and "unstakeRequests s h = 0"
  shows "call_value recv to v s = call_value recv' to v s"
  using assms by (simp add: call_value_def)

lemma finalize_cong_registry:
  assumes "\<forall>a v t. unstakeRequests t h = 0 \<longrightarrow> recv a v t = recv' a v t"
  shows "finalizeUnstake E recv sender h c p s = finalizeUnstake E recv' sender h c p s"
proof (cases "unstakeRequests s h = 0")
  case True
  then show ?thesis by (simp add: finalize_unknown)
next
  case False
  have "call_value recv to v (s\<lparr>unstakeRequests := (unstakeRequests s)(h := 0), fhe := e1\<rparr>)
      = call_value recv' to v (s\<lparr>unstakeRequests := (unstakeRequests s)(h := 0), fhe := e1\<rparr>)"
    for to v e1
    by (rule call_value_cong_registry [OF assms]) simp
  then show ?thesis by (simp add: finalize_known [OF False] split: option.splits)
qed


lemma double_dip_is_eoa:
  "\<forall>a v t. unstakeRequests t 3 = 0 \<longrightarrow> double_dip a v t = eoa a v t"
  by (simp add: double_dip_def eoa_def finalize_unknown committed_def)


lemma double_dip_quiet:
  "\<forall>t t'. double_dip (unstakeRequests requested 3) (ucast (1000000 :: uint64) * STAKE_SCALE) t
             = Some t' \<and> unstakeRequests t 3 = 0 \<longrightarrow> unstakeRequests t' 3 = 0"
  by (auto simp: double_dip_def finalize_unknown committed_def)

lemma scenario_double_dip:
  "finalizeUnstake plain_engine double_dip bob 3 1000000 [] requested = Inr ((), finalized)"
  using finalize_cong_registry [OF double_dip_is_eoa, of plain_engine bob 1000000 "[]" requested]
    scenario_finalize by simp

theorem finalize_replay_rejected_witness:
  "finalizeUnstake plain_engine double_dip bob 3 1000000 [] requested = Inr ((), finalized)
   \<and> finalizeUnstake plain_engine eoa alice 3 1000000 [] finalized = Inl (InvalidUnstakeRequest 3)
   \<and> committed finalized (finalizeUnstake plain_engine eoa alice 3 1000000 [] finalized) = finalized"
  using finalize_replay_rejected [OF scenario_double_dip double_dip_quiet,
      of plain_engine eoa alice 1000000 "[]"]
    scenario_double_dip
  by (simp add: committed_def)

text \<open>
  Claim C3. When the handle is registered, the proof verifies and the low-level
  transfer fails, \<^verbatim>\<open>finalizeUnstake\<close> fails with \<^verbatim>\<open>TransferFailed\<close>; the committed state
  is the state before the call (the entry is registered as before, no ETH has left, no
  event is logged), and the same request finalizes later, once the transfer goes
  through.
\<close>

theorem transfer_failure_rolls_back:
  assumes known: "unstakeRequests s h \<noteq> 0"
    and verified: "checkSignatures E [h] (abi_encode_uint64 c) p (fhe s) = Some e1"
    and failed: "call_value recv (unstakeRequests s h) (ucast c * STAKE_SCALE)
                   (s\<lparr>unstakeRequests := (unstakeRequests s)(h := 0), fhe := e1\<rparr>) = None"
  shows "finalizeUnstake E recv sender h c p s = Inl TransferFailed
     \<and> committed s (finalizeUnstake E recv sender h c p s) = s
     \<and> (\<forall>t. call_value recv' (unstakeRequests s h) (ucast c * STAKE_SCALE)
                   (s\<lparr>unstakeRequests := (unstakeRequests s)(h := 0), fhe := e1\<rparr>) = Some t \<longrightarrow>
            finalizeUnstake E recv' sender' h c p
                (committed s (finalizeUnstake E recv sender h c p s)) =
              Inr ((), t\<lparr>events := events t @
                   [UnstakeFinalized (unstakeRequests s h) c (ucast c * STAKE_SCALE)]\<rparr>))"
proof -
  have f: "finalizeUnstake E recv sender h c p s = Inl TransferFailed"
    using verified failed by (simp add: finalize_known [OF known])
  then have c: "committed s (finalizeUnstake E recv sender h c p s) = s"
    by (simp add: committed_def)
  have r: "finalizeUnstake E recv' sender' h c p s =
      Inr ((), t\<lparr>events := events t @
                   [UnstakeFinalized (unstakeRequests s h) c (ucast c * STAKE_SCALE)]\<rparr>)"
    if "call_value recv' (unstakeRequests s h) (ucast c * STAKE_SCALE)
          (s\<lparr>unstakeRequests := (unstakeRequests s)(h := 0), fhe := e1\<rparr>) = Some t" for t
    using verified that by (simp add: finalize_known [OF known])
  from f c r show ?thesis by simp
qed

theorem transfer_failure_rolls_back_witness:
  "finalizeUnstake plain_engine rejecting bob 3 1000000 [] requested = Inl TransferFailed
   \<and> committed requested (finalizeUnstake plain_engine rejecting bob 3 1000000 [] requested)
       = requested
   \<and> unstakeRequests requested 3 = alice
   \<and> finalizeUnstake plain_engine eoa bob 3 1000000 []
        (committed requested (finalizeUnstake plain_engine rejecting bob 3 1000000 [] requested))
       = Inr ((), finalized)"
proof -
  have k: "unstakeRequests requested 3 \<noteq> 0" by (simp add: requested_def alice_def)
  have v: "checkSignatures plain_engine [3] (abi_encode_uint64 1000000) [] (fhe requested)
             = Some (fhe requested)"
    by (simp add: plain_engine_def plain_checkSignatures_def requested_def)
  have f: "call_value rejecting (unstakeRequests requested 3) (ucast (1000000 :: uint64) * STAKE_SCALE)
             (requested\<lparr>unstakeRequests := (unstakeRequests requested)(3 := 0),
                        fhe := fhe requested\<rparr>) = None"
    by (simp add: call_value_def rejecting_def)
  have r: "unstakeRequests requested 3 = alice" by (simp add: requested_def)
  from transfer_failure_rolls_back [OF k v f, of bob eoa bob]
  have a: "finalizeUnstake plain_engine rejecting bob 3 1000000 [] requested = Inl TransferFailed"
    and b: "committed requested (finalizeUnstake plain_engine rejecting bob 3 1000000 [] requested)
              = requested"
    by blast+
  from a b r scenario_finalize show ?thesis by (simp only: simp_thms)
qed

section \<open>Registration\<close>

lemma requestUnstake_internal_InrD:
  assumes "requestUnstake_internal E from amt s = Inr (b, s')"
  shows "\<exists>e1 e2. burn E from amt (fhe s) = Some (b, e1)
      \<and> makePubliclyDecryptable E b e1 = Some e2
      \<and> unstakeRequests s b = 0
      \<and> s' = s\<lparr>unstakeRequests := (unstakeRequests s)(b := from), fhe := e2,
                events := events s @ [UnstakeRequested from b]\<rparr>"
  using assms
  by (auto simp: requestUnstake_internal_def split: option.splits if_splits)

lemma requestUnstake_internal_duplicate:
  "burn E from amt (fhe s) = Some (b, e1) \<Longrightarrow> makePubliclyDecryptable E b e1 = Some e2 \<Longrightarrow>
   unstakeRequests s b \<noteq> 0 \<Longrightarrow>
   requestUnstake_internal E from amt s = Inl (InvalidUnstakeRequest b)"
  by (simp add: requestUnstake_internal_def)

lemma requestUnstake_internal_registry:
  "requestUnstake_internal E from amt s = Inr (b, s') \<Longrightarrow>
   unstakeRequests s b = 0 \<and> unstakeRequests s' = (unstakeRequests s)(b := from)"
  by (drule requestUnstake_internal_InrD) auto

lemma requestUnstake_InrD:
  "requestUnstake E from amt s = Inr (b, s') \<Longrightarrow>
   requestUnstake_internal E from amt s = Inr (b, s')"
  by (simp add: requestUnstake_def split: if_splits)

lemma requestUnstake_external_InrD:
  "requestUnstake_external E from x ip s = Inr (b, s') \<Longrightarrow>
   \<exists>amt e0. fromExternal E from x ip (fhe s) = Some (amt, e0)
     \<and> requestUnstake_internal E from amt (s\<lparr>fhe := e0\<rparr>) = Inr (b, s')"
  by (auto simp: requestUnstake_external_def split: option.splits)

lemma requestUnstake_registry:
  "requestUnstake E from amt s = Inr (b, s') \<Longrightarrow>
   unstakeRequests s b = 0 \<and> unstakeRequests s' = (unstakeRequests s)(b := from)"
  by (drule requestUnstake_InrD) (rule requestUnstake_internal_registry)

lemma requestUnstake_external_registry:
  "requestUnstake_external E from x ip s = Inr (b, s') \<Longrightarrow>
   unstakeRequests s b = 0 \<and> unstakeRequests s' = (unstakeRequests s)(b := from)"
  by (drule requestUnstake_external_InrD) (auto dest: requestUnstake_internal_registry)

text \<open>
  Claim C6. When the burn yields a handle that already has a registered pending
  withdrawal, \<^verbatim>\<open>_requestUnstake\<close>, and with it both overloads of \<^verbatim>\<open>requestUnstake\<close>,
  fails with \<^verbatim>\<open>InvalidUnstakeRequest\<close> for that handle and commits nothing (should the
  library revert in \<^verbatim>\<open>makePubliclyDecryptable\<close>, which comes before the guard, the call
  fails with that revert instead). A request that succeeds writes the slot of its own
  handle only, which was unregistered, so no registered recipient is ever overwritten.
\<close>

theorem duplicate_handle_rejected:
  "(burn E from amt (fhe s) = Some (b, e1) \<and> makePubliclyDecryptable E b e1 = Some e2
      \<and> unstakeRequests s b \<noteq> 0 \<longrightarrow>
        requestUnstake_internal E from amt s = Inl (InvalidUnstakeRequest b)
        \<and> committed s (requestUnstake_internal E from amt s) = s
        \<and> (isAllowed E amt from (fhe s) \<longrightarrow>
             requestUnstake E from amt s = Inl (InvalidUnstakeRequest b)))
   \<and> (fromExternal E from x ip (fhe s) = Some (amt, e0)
      \<and> burn E from amt e0 = Some (b, e1) \<and> makePubliclyDecryptable E b e1 = Some e2
      \<and> unstakeRequests s b \<noteq> 0 \<longrightarrow>
        requestUnstake_external E from x ip s = Inl (InvalidUnstakeRequest b))
   \<and> (requestUnstake E from amt s = Inr (b', s')
        \<or> requestUnstake_external E from x ip s = Inr (b', s') \<longrightarrow>
        unstakeRequests s b' = 0 \<and> unstakeRequests s' b' = from
        \<and> (\<forall>h. unstakeRequests s h \<noteq> 0 \<longrightarrow> unstakeRequests s' h = unstakeRequests s h))
   \<and> (burn E from amt (fhe s) = Some (b, e1) \<and> unstakeRequests s b \<noteq> 0 \<longrightarrow>
        requestUnstake_internal E from amt s = Inl (InvalidUnstakeRequest b)
        \<or> requestUnstake_internal E from amt s = Inl LibraryRevert)"
proof (intro conjI impI)
  assume a: "burn E from amt (fhe s) = Some (b, e1) \<and> makePubliclyDecryptable E b e1 = Some e2
      \<and> unstakeRequests s b \<noteq> 0"
  then have r: "requestUnstake_internal E from amt s = Inl (InvalidUnstakeRequest b)"
    by (simp add: requestUnstake_internal_duplicate)
  then show "requestUnstake_internal E from amt s = Inl (InvalidUnstakeRequest b)" .
  from r show "committed s (requestUnstake_internal E from amt s) = s"
    by (simp add: committed_def)
  assume "isAllowed E amt from (fhe s)"
  with r show "requestUnstake E from amt s = Inl (InvalidUnstakeRequest b)"
    by (simp add: requestUnstake_def)
next
  assume "fromExternal E from x ip (fhe s) = Some (amt, e0)
      \<and> burn E from amt e0 = Some (b, e1) \<and> makePubliclyDecryptable E b e1 = Some e2
      \<and> unstakeRequests s b \<noteq> 0"
  then show "requestUnstake_external E from x ip s = Inl (InvalidUnstakeRequest b)"
    by (simp add: requestUnstake_external_def requestUnstake_internal_duplicate)
next
  assume "requestUnstake E from amt s = Inr (b', s')
        \<or> requestUnstake_external E from x ip s = Inr (b', s')"
  then have r: "unstakeRequests s b' = 0 \<and> unstakeRequests s' = (unstakeRequests s)(b' := from)"
    using requestUnstake_registry requestUnstake_external_registry by blast
  then show "unstakeRequests s b' = 0" "unstakeRequests s' b' = from"
    "\<forall>h. unstakeRequests s h \<noteq> 0 \<longrightarrow> unstakeRequests s' h = unstakeRequests s h"
    by auto
next
  assume "burn E from amt (fhe s) = Some (b, e1) \<and> unstakeRequests s b \<noteq> 0"
  then show "requestUnstake_internal E from amt s = Inl (InvalidUnstakeRequest b)
        \<or> requestUnstake_internal E from amt s = Inl LibraryRevert"
    by (auto simp: requestUnstake_internal_def split: option.splits)
qed

theorem duplicate_handle_rejected_witness:
  "unstakeRequests replayed 3 = alice
   \<and> requestUnstake_internal plain_engine bob 2 replayed = Inl (InvalidUnstakeRequest 3)
   \<and> requestUnstake plain_engine bob 2 replayed = Inl (InvalidUnstakeRequest 3)
   \<and> unstakeRequests (committed replayed (requestUnstake_internal plain_engine bob 2 replayed)) 3
       = alice"
proof -
  let ?e1 = "(fhe replayed)\<lparr>cleartext := (cleartext (fhe replayed))(3 := 0), next_handle := 4,
                balance_of := (balance_of (fhe replayed))(bob := 0)\<rparr>"
  have r: "unstakeRequests replayed 3 = alice" by (simp add: replayed_def requested_def)
  have b: "burn plain_engine bob 2 (fhe replayed) = Some (3, ?e1)"
    by (simp add: plain_engine_def plain_burn_def fresh_def replayed_def requested_def bob_def
        alice_def Let_def)
  have m: "makePubliclyDecryptable plain_engine 3 ?e1 = Some ?e1"
    by (simp add: plain_engine_def)
  have n: "unstakeRequests replayed 3 \<noteq> 0" by (simp add: r alice_def)
  have al: "isAllowed plain_engine 2 bob (fhe replayed)"
    by (simp add: plain_engine_def replayed_def requested_def)
  from duplicate_handle_rejected
    [where E = plain_engine and ?from = bob and amt = 2 and s = replayed and b = 3
       and ?e1.0 = ?e1 and ?e2.0 = ?e1 and x = 0 and ip = "[]" and ?e0.0 = ?e1 and b' = 0
       and s' = replayed, THEN conjunct1] b m n al
  have "requestUnstake_internal plain_engine bob 2 replayed = Inl (InvalidUnstakeRequest 3)
        \<and> committed replayed (requestUnstake_internal plain_engine bob 2 replayed) = replayed
        \<and> requestUnstake plain_engine bob 2 replayed = Inl (InvalidUnstakeRequest 3)"
    by (simp add: committed_def)
  with r show ?thesis by (simp add: committed_def)
qed

text \<open>
  Claim C7, as stated, fails when the code of the recipient pays into the ledger while
  it receives: Alice's request for one million units is finalized, her code stakes
  \<open>10^12\<close> wei during the transfer, and the contract's balance is lower by
  \<open>10^18 - 10^12\<close> wei, not by \<open>10^18\<close>.
\<close>

theorem finalize_net_balance_counterexample:
  "finalizeUnstake plain_engine restaker bob 3 1000000 [] requested = Inr ((), restaked)
   \<and> unstakeRequests requested 3 = alice
   \<and> ethBalance requested - ethBalance restaked \<noteq> unat (1000000 :: uint64) * 1000000000000"
  using scenario_restake by (simp add: requested_def restaked_def)

text \<open>
  Claim C7, amended. A successful \<^verbatim>\<open>finalizeUnstake\<close> with clear value \<open>u\<close> is on a
  registered handle; it takes exactly \<open>u * 10^12\<close> wei from the contract's balance and
  hands them to the code of the registered recipient, and \<^verbatim>\<open>UnstakeFinalized\<close> with that
  recipient, \<open>u\<close> and \<open>u * 10^12\<close> is the last event. Whenever the recipient's code
  leaves the ledger's balance as it received it, the balance after the call is the
  balance before it less \<open>u * 10^12\<close>.
\<close>

theorem finalize_releases_exact_amount:
  assumes "finalizeUnstake E recv sender h u p s = Inr ((), s')"
  shows "\<exists>t t'. unstakeRequests s h \<noteq> 0
     \<and> unat (ucast u * STAKE_SCALE :: uint256) = unat u * 1000000000000
     \<and> unat u * 1000000000000 \<le> ethBalance s
     \<and> ethBalance t = ethBalance s - unat u * 1000000000000
     \<and> unstakeRequests t = (unstakeRequests s)(h := 0)
     \<and> events t = events s
     \<and> recv (unstakeRequests s h) (ucast u * STAKE_SCALE) t = Some t'
     \<and> s' = t'\<lparr>events := events t' @
                 [UnstakeFinalized (unstakeRequests s h) u (ucast u * STAKE_SCALE)]\<rparr>
     \<and> (ethBalance t' = ethBalance t \<longrightarrow>
          ethBalance s' = ethBalance s - unat u * 1000000000000)"
proof -
  from finalize_InrD [OF assms] obtain e1 t' where
    k: "unstakeRequests s h \<noteq> 0"
    and le: "unat u * 1000000000000 \<le> ethBalance s"
    and r: "recv (unstakeRequests s h) (ucast u * STAKE_SCALE)
           (s\<lparr>unstakeRequests := (unstakeRequests s)(h := 0), fhe := e1,
              ethBalance := ethBalance s - unat u * 1000000000000\<rparr>) = Some t'"
    and s': "s' = t'\<lparr>events := events t' @
                 [UnstakeFinalized (unstakeRequests s h) u (ucast u * STAKE_SCALE)]\<rparr>"
    by blast
  let ?t = "s\<lparr>unstakeRequests := (unstakeRequests s)(h := 0), fhe := e1,
              ethBalance := ethBalance s - unat u * 1000000000000\<rparr>"
  have "ethBalance ?t = ethBalance s - unat u * 1000000000000"
    "unstakeRequests ?t = (unstakeRequests s)(h := 0)" "events ?t = events s"
    "ethBalance t' = ethBalance ?t \<longrightarrow> ethBalance s' = ethBalance s - unat u * 1000000000000"
    by (simp_all add: s')
  with k le r s' unat_wei_product [of u] show ?thesis by blast
qed

theorem finalize_releases_exact_amount_witness:
  "finalizeUnstake plain_engine eoa bob 3 1000000 [] requested = Inr ((), finalized)
   \<and> unstakeRequests requested 3 = alice
   \<and> ethBalance requested - ethBalance finalized = 1000000 * 1000000000000
   \<and> last (events finalized) = UnstakeFinalized alice 1000000 (1000000 * 1000000000000)"
proof -
  from finalize_releases_exact_amount [OF scenario_finalize] obtain t t' where
    le: "unat (1000000 :: uint64) * 1000000000000 \<le> ethBalance requested"
    and bt: "ethBalance t = ethBalance requested - unat (1000000 :: uint64) * 1000000000000"
    and r: "eoa (unstakeRequests requested 3) (ucast (1000000 :: uint64) * STAKE_SCALE) t = Some t'"
    and s': "finalized = t'\<lparr>events := events t' @
                 [UnstakeFinalized (unstakeRequests requested 3) 1000000
                    (ucast (1000000 :: uint64) * STAKE_SCALE)]\<rparr>"
    by blast
  from r have "t' = t" by (simp add: eoa_def)
  with s' bt have "ethBalance finalized = ethBalance requested - unat (1000000 :: uint64) * 1000000000000"
    by (metis state.select_convs(2) state.surjective state.update_convs(3))
  with le have 1: "ethBalance requested - ethBalance finalized = 1000000 * 1000000000000"
    by simp
  have 2: "unstakeRequests requested 3 = alice" by (simp add: requested_def)
  have 3: "last (events finalized) = UnstakeFinalized alice 1000000 (1000000 * 1000000000000)"
    by (simp add: finalized_def)
  from 1 2 3 scenario_finalize show ?thesis by simp
qed

lemma finalize_sender_irrelevant:
  "finalizeUnstake E recv sender1 h c p s = finalizeUnstake E recv sender2 h c p s"
  by (simp add: finalizeUnstake_def)

lemma call_value_cong_recipient:
  assumes "\<forall>v t. recv to v t = recv' to v t"
  shows "call_value recv to v s = call_value recv' to v s"
  using assms by (simp add: call_value_def)

lemma finalize_cong_recipient:
  assumes "\<forall>v t. recv (unstakeRequests s h) v t = recv' (unstakeRequests s h) v t"
  shows "finalizeUnstake E recv sender h c p s = finalizeUnstake E recv' sender h c p s"
proof (cases "unstakeRequests s h = 0")
  case True
  then show ?thesis by (simp add: finalize_unknown)
next
  case False
  show ?thesis
    by (simp add: finalize_known [OF False]
        call_value_cong_recipient [of recv "unstakeRequests s h" recv', OF assms]
        split: option.splits)
qed

text \<open>
  Claim C8, as stated, fails when the code of the recipient tells the callers apart:
  Alice's code accepts ETH only in a transaction that Bob has sent, so the same
  \<^verbatim>\<open>finalizeUnstake\<close> on the same state succeeds when Bob calls it and fails with
  \<^verbatim>\<open>TransferFailed\<close> when Carol does.
\<close>

theorem finalize_caller_counterexample:
  "finalizeUnstake plain_engine (owner_only bob) bob 3 1000000 [] requested = Inr ((), finalized)
   \<and> finalizeUnstake plain_engine (owner_only carol) carol 3 1000000 [] requested
       = Inl TransferFailed
   \<and> finalizeUnstake plain_engine (owner_only bob) bob 3 1000000 [] requested
       \<noteq> finalizeUnstake plain_engine (owner_only carol) carol 3 1000000 [] requested"
  using scenario_owner scenario_stranger by simp

text \<open>
  Claim C8, amended. \<^verbatim>\<open>finalizeUnstake\<close> does not restrict or read its caller: two
  callers get the same outcome on the same state, handle, clear value and proof
  whenever the code of the recipient registered for the handle acts the same on
  receipt in both calls. That is the only code it runs: what any other address, the
  caller's included, would do on receipt changes nothing, and a successful call has
  paid the registered recipient and logged it.
\<close>

theorem finalize_ignores_caller:
  "((\<forall>v t. recv (unstakeRequests s h) v t = recv' (unstakeRequests s h) v t) \<longrightarrow>
        finalizeUnstake E recv sender1 h c p s = finalizeUnstake E recv' sender2 h c p s)
   \<and> (finalizeUnstake E recv sender1 h c p s = Inr ((), s') \<longrightarrow>
        (\<exists>t t'. recv (unstakeRequests s h) (ucast c * STAKE_SCALE) t = Some t'
           \<and> s' = t'\<lparr>events := events t' @
               [UnstakeFinalized (unstakeRequests s h) c (ucast c * STAKE_SCALE)]\<rparr>))"
proof (intro conjI impI)
  assume "\<forall>v t. recv (unstakeRequests s h) v t = recv' (unstakeRequests s h) v t"
  then have "finalizeUnstake E recv sender1 h c p s = finalizeUnstake E recv' sender1 h c p s"
    by (rule finalize_cong_recipient)
  then show "finalizeUnstake E recv sender1 h c p s = finalizeUnstake E recv' sender2 h c p s"
    by (simp add: finalize_sender_irrelevant [of E recv' sender1 h c p s sender2])
next
  assume "finalizeUnstake E recv sender1 h c p s = Inr ((), s')"
  from finalize_InrD [OF this]
  show "\<exists>t t'. recv (unstakeRequests s h) (ucast c * STAKE_SCALE) t = Some t'
           \<and> s' = t'\<lparr>events := events t' @
               [UnstakeFinalized (unstakeRequests s h) c (ucast c * STAKE_SCALE)]\<rparr>"
    by blast
qed

lemma alice_only_at_alice:
  "\<forall>v t. eoa (unstakeRequests requested 3) v t = alice_only (unstakeRequests requested 3) v t"
  by (simp add: eoa_def alice_only_def requested_def)

lemma eoa_at_recipient:
  "\<forall>v t. eoa (unstakeRequests requested 3) v t = eoa (unstakeRequests requested 3) v t"
  by simp

theorem finalize_ignores_caller_witness:
  "finalizeUnstake plain_engine eoa alice 3 1000000 [] requested = Inr ((), finalized)
   \<and> finalizeUnstake plain_engine eoa bob 3 1000000 [] requested = Inr ((), finalized)
   \<and> finalizeUnstake plain_engine alice_only alice 3 1000000 [] requested = Inr ((), finalized)
   \<and> alice_only bob 1000000000000000000 requested = None"
proof -
  note t = finalize_ignores_caller
    [where E = plain_engine and recv = eoa and ?sender1.0 = bob and ?sender2.0 = alice and h = 3
       and c = 1000000 and p = "[]" and s = requested and s' = finalized]
  from t [where recv' = eoa, THEN conjunct1, rule_format, OF eoa_at_recipient [rule_format]]
    scenario_finalize
  have 1: "finalizeUnstake plain_engine eoa alice 3 1000000 [] requested = Inr ((), finalized)"
    by simp
  from t [where recv' = alice_only, THEN conjunct1, rule_format,
      OF alice_only_at_alice [rule_format]]
    scenario_finalize
  have 2: "finalizeUnstake plain_engine alice_only alice 3 1000000 [] requested
             = Inr ((), finalized)"
    by simp
  have 3: "alice_only bob 1000000000000000000 requested = (None :: plain_fhe state option)"
    by (simp add: alice_only_def alice_def bob_def)
  from 1 2 3 scenario_finalize show ?thesis by simp
qed

lemma registry_inv_zero: "registry_inv s live \<Longrightarrow> (unstakeRequests s h = 0) = (live h = None)"
  by (auto simp: registry_inv_def split: option.splits dest: spec [of _ h])

lemma registry_inv_frame:
  assumes "registry_inv s live" and "unstakeRequests s' = unstakeRequests s"
  shows "registry_inv s' live"
  using assms(1) unfolding registry_inv_def assms(2) .

lemma registry_inv_register:
  assumes "registry_inv s live" and "a \<noteq> 0"
    and "unstakeRequests s' = (unstakeRequests s)(b := a)"
  shows "registry_inv s' (live(b \<mapsto> a))"
  unfolding registry_inv_def assms(3)
proof
  fix h
  from assms(1) have "case live h of None \<Rightarrow> unstakeRequests s h = 0
                       | Some a \<Rightarrow> a \<noteq> 0 \<and> unstakeRequests s h = a"
    by (simp add: registry_inv_def)
  with assms(2)
  show "case (live(b \<mapsto> a)) h of None \<Rightarrow> ((unstakeRequests s)(b := a)) h = 0
        | Some x \<Rightarrow> x \<noteq> 0 \<and> ((unstakeRequests s)(b := a)) h = x"
    by (cases "h = b") (simp_all split: option.splits)
qed

lemma registry_inv_delete:
  assumes "registry_inv s live" and "unstakeRequests s' = (unstakeRequests s)(h := 0)"
  shows "registry_inv s' (live(h := None))"
  unfolding registry_inv_def assms(2)
proof
  fix k
  from assms(1) have "case live k of None \<Rightarrow> unstakeRequests s k = 0
                       | Some a \<Rightarrow> a \<noteq> 0 \<and> unstakeRequests s k = a"
    by (simp add: registry_inv_def)
  then
  show "case (live(h := None)) k of None \<Rightarrow> ((unstakeRequests s)(h := 0)) k = 0
        | Some x \<Rightarrow> x \<noteq> 0 \<and> ((unstakeRequests s)(h := 0)) k = x"
    by (cases "k = h") (simp_all split: option.splits)
qed

lemma stake_registry:
  "stake E a v s = Inr (m, s') \<Longrightarrow> unstakeRequests s' = unstakeRequests s"
  by (auto simp: stake_def Let_def split: if_splits sum.splits option.splits)

lemma finalize_invalid_iff:
  "(finalizeUnstake E recv sender h c p s = Inl (InvalidUnstakeRequest h))
     = (unstakeRequests s h = 0)"
proof (cases "unstakeRequests s h = 0")
  case True
  then show ?thesis by (simp add: finalize_unknown)
next
  case False
  then show ?thesis
    by (simp add: finalize_known [OF False] split: option.splits)
qed

text \<open>
  Claim C9. Let \<open>live\<close> record the registered requests. That every registered handle
  holds its nonzero registrant and every other slot reads \<^verbatim>\<open>address(0)\<close> is preserved by
  \<^verbatim>\<open>stake\<close>, by \<^verbatim>\<open>requestUnstake\<close> in both overloads from a nonzero caller, which
  registers that caller under a handle not registered before, and by
  \<^verbatim>\<open>finalizeUnstake\<close>, which removes a registered handle, provided the recipient's own
  calls preserve it. Under the invariant the comparison with \<^verbatim>\<open>address(0)\<close> says
  exactly that the handle is not registered, and \<^verbatim>\<open>finalizeUnstake\<close> fails with
  \<^verbatim>\<open>InvalidUnstakeRequest\<close> exactly then.
\<close>

theorem registry_invariant:
  assumes inv: "registry_inv s live"
  shows "(stake E a v s = Inr (m, s') \<longrightarrow> registry_inv s' live)
     \<and> (a \<noteq> 0 \<and> requestUnstake_internal E a amt s = Inr (b, s') \<longrightarrow>
          live b = None \<and> unstakeRequests s' b = a \<and> registry_inv s' (live(b \<mapsto> a)))
     \<and> (a \<noteq> 0 \<and> requestUnstake E a amt s = Inr (b, s') \<longrightarrow>
          live b = None \<and> unstakeRequests s' b = a \<and> registry_inv s' (live(b \<mapsto> a)))
     \<and> (a \<noteq> 0 \<and> requestUnstake_external E a x ip s = Inr (b, s') \<longrightarrow>
          live b = None \<and> unstakeRequests s' b = a \<and> registry_inv s' (live(b \<mapsto> a)))
     \<and> (finalizeUnstake E recv sender h c p s = Inr ((), s')
          \<and> (\<forall>to v t t'. recv to v t = Some t' \<and> registry_inv t (live(h := None))
                \<longrightarrow> registry_inv t' live') \<longrightarrow>
          live h = Some (unstakeRequests s h) \<and> registry_inv s' live')
     \<and> ((unstakeRequests s h = 0) = (live h = None))
     \<and> ((finalizeUnstake E recv sender h c p s = Inl (InvalidUnstakeRequest h))
          = (live h = None))"
proof (intro conjI impI)
  assume "stake E a v s = Inr (m, s')"
  from registry_inv_frame [OF inv stake_registry [OF this]] show "registry_inv s' live" .
next
  assume "a \<noteq> 0 \<and> requestUnstake_internal E a amt s = Inr (b, s')"
  then have a: "a \<noteq> 0" and r: "unstakeRequests s b = 0"
    "unstakeRequests s' = (unstakeRequests s)(b := a)"
    using requestUnstake_internal_registry by blast+
  from r registry_inv_zero [OF inv] show "live b = None" by simp
  from r show "unstakeRequests s' b = a" by simp
  from registry_inv_register [OF inv a r(2)] show "registry_inv s' (live(b \<mapsto> a))" .
next
  assume "a \<noteq> 0 \<and> requestUnstake E a amt s = Inr (b, s')"
  then have a: "a \<noteq> 0" and r: "unstakeRequests s b = 0"
    "unstakeRequests s' = (unstakeRequests s)(b := a)"
    using requestUnstake_registry by blast+
  from r registry_inv_zero [OF inv] show "live b = None" by simp
  from r show "unstakeRequests s' b = a" by simp
  from registry_inv_register [OF inv a r(2)] show "registry_inv s' (live(b \<mapsto> a))" .
next
  assume "a \<noteq> 0 \<and> requestUnstake_external E a x ip s = Inr (b, s')"
  then have a: "a \<noteq> 0" and r: "unstakeRequests s b = 0"
    "unstakeRequests s' = (unstakeRequests s)(b := a)"
    using requestUnstake_external_registry by blast+
  from r registry_inv_zero [OF inv] show "live b = None" by simp
  from r show "unstakeRequests s' b = a" by simp
  from registry_inv_register [OF inv a r(2)] show "registry_inv s' (live(b \<mapsto> a))" .
next
  assume f: "finalizeUnstake E recv sender h c p s = Inr ((), s')
          \<and> (\<forall>to v t t'. recv to v t = Some t' \<and> registry_inv t (live(h := None))
                \<longrightarrow> registry_inv t' live')"
  from finalize_InrD [OF f [THEN conjunct1]] obtain e1 t' where
    k: "unstakeRequests s h \<noteq> 0"
    and r: "recv (unstakeRequests s h) (ucast c * STAKE_SCALE)
           (s\<lparr>unstakeRequests := (unstakeRequests s)(h := 0), fhe := e1,
              ethBalance := ethBalance s - unat c * 1000000000000\<rparr>) = Some t'"
    and s': "s' = t'\<lparr>events := events t' @
                 [UnstakeFinalized (unstakeRequests s h) c (ucast c * STAKE_SCALE)]\<rparr>"
    by blast
  from inv k show "live h = Some (unstakeRequests s h)"
    by (auto simp: registry_inv_def split: option.splits dest: spec [of _ h])
  have "registry_inv (s\<lparr>unstakeRequests := (unstakeRequests s)(h := 0), fhe := e1,
              ethBalance := ethBalance s - unat c * 1000000000000\<rparr>) (live(h := None))"
    by (rule registry_inv_delete [OF inv]) simp
  with f r have "registry_inv t' live'" by blast
  then show "registry_inv s' live'"
    by (rule registry_inv_frame) (simp add: s')
next
  show "(unstakeRequests s h = 0) = (live h = None)" by (rule registry_inv_zero [OF inv])
  then show "(finalizeUnstake E recv sender h c p s = Inl (InvalidUnstakeRequest h))
          = (live h = None)"
    by (simp add: finalize_invalid_iff)
qed

section \<open>Accounting\<close>

lemma abi_encode_uint64_nth:
  "i < 32 \<Longrightarrow> abi_encode_uint64 c ! i = ucast (drop_bit (8 * (31 - i)) (ucast c :: uint256))"
  by (simp add: abi_encode_uint64_def)

lemma abi_encode_uint64_bit:
  assumes "n < 64"
  shows "bit (abi_encode_uint64 c ! (31 - n div 8)) (n mod 8) = bit c n"
proof -
  have i: "31 - n div 8 < 32" by simp
  have d: "n div 8 \<le> 31" using assms by simp
  have e: "8 * (31 - (31 - n div 8)) + n mod 8 = n" using d by simp
  show ?thesis
    using assms
    by (simp add: abi_encode_uint64_nth [OF i] bit_ucast_iff bit_drop_bit_eq e)
qed

lemma abi_encode_uint64_inj:
  assumes "abi_encode_uint64 c = abi_encode_uint64 d"
  shows "c = d"
proof (rule bit_word_eqI)
  fix n assume "n < LENGTH(64)"
  then have n: "n < 64" by simp
  from abi_encode_uint64_bit [OF n, of c] abi_encode_uint64_bit [OF n, of d] assms
  show "bit c n = bit d n" by simp
qed

lemma ucast_fits_64:
  assumes "\<not> x > uint64_max"
  shows "unat (ucast (x :: uint256) :: uint64) = unat x"
proof -
  from assms have "unat x \<le> 18446744073709551615"
    by (simp add: word_less_nat_alt unat_uint64_max not_less)
  then have "unat x < 2 ^ 64" by simp
  then show ?thesis
    by (simp add: unsigned_ucast_eq take_bit_nat_eq_self)
qed

lemma plain_engine_accounting:
  "engine_accounting plain_engine (\<lambda>a e. unat (balance_of e a)) (\<lambda>h e. unat (cleartext e h))"
  unfolding engine_accounting_def
proof (intro conjI allI impI)
  fix x e h e' a
  assume "asEuint64 plain_engine x e = Some (h, e')"
  then show "unat (cleartext e' h) = unat x" "unat (balance_of e' a) = unat (balance_of e a)"
    by (auto simp: plain_engine_def fresh_def)
next
  fix a h e m e'
  assume "mint plain_engine a h e = Some (m, e')"
  then show "unat (balance_of e' a) = unat (balance_of e a) + unat (cleartext e h)"
    by (auto simp: plain_engine_def plain_mint_def unat_word_ariths not_le split: if_splits)
next
  fix a h e b e'
  assume b: "burn plain_engine a h e = Some (b, e')"
  then show "unat (cleartext e' b) \<le> unat (balance_of e a)"
    by (auto simp: plain_engine_def plain_burn_def fresh_def Let_def word_le_nat_alt
        split: if_splits)
  from b show "unat (balance_of e' a) = unat (balance_of e a) - unat (cleartext e' b)"
    by (auto simp: plain_engine_def plain_burn_def fresh_def Let_def unat_sub
        split: if_splits)
next
  fix a x p e h e' b
  assume "fromExternal plain_engine a x p e = Some (h, e')"
  then show "unat (balance_of e' b) = unat (balance_of e b)"
    by (auto simp: plain_engine_def fresh_def split: if_splits)
next
  fix h e e' a
  assume "makePubliclyDecryptable plain_engine h e = Some e'"
  then show "unat (balance_of e' a) = unat (balance_of e a)"
    by (simp add: plain_engine_def)
next
  fix h e e' k
  assume "makePubliclyDecryptable plain_engine h e = Some e'"
  then show "unat (cleartext e' k) = unat (cleartext e k)"
    by (simp add: plain_engine_def)
next
  fix h c p e e' a
  assume c: "checkSignatures plain_engine [h] (abi_encode_uint64 c) p e = Some e'"
  then have "abi_encode_uint64 c = abi_encode_uint64 (cleartext e h)"
    by (simp add: plain_engine_def plain_checkSignatures_def split: if_splits)
  then have "c = cleartext e h" by (rule abi_encode_uint64_inj)
  then show "unat (cleartext e h) = unat c" by simp
  from c show "unat (balance_of e' a) = unat (balance_of e a)"
    by (simp add: plain_engine_def plain_checkSignatures_def split: if_splits)
qed

lemma accounting_asEuint64:
  "engine_accounting E bal dec \<Longrightarrow> asEuint64 E x e = Some (h, e') \<Longrightarrow>
   dec h e' = unat x \<and> bal a e' = bal a e"
  unfolding engine_accounting_def by (elim conjE) fast

lemma accounting_mint:
  "engine_accounting E bal dec \<Longrightarrow> mint E a h e = Some (m, e') \<Longrightarrow>
   bal a e' = bal a e + dec h e"
  unfolding engine_accounting_def by (elim conjE) fast

lemma accounting_burn:
  "engine_accounting E bal dec \<Longrightarrow> burn E a h e = Some (b, e') \<Longrightarrow>
   dec b e' \<le> bal a e \<and> bal a e' = bal a e - dec b e'"
  unfolding engine_accounting_def by (elim conjE) fast

lemma accounting_fromExternal:
  "engine_accounting E bal dec \<Longrightarrow> fromExternal E a x p e = Some (h, e') \<Longrightarrow>
   bal b e' = bal b e"
  unfolding engine_accounting_def by (elim conjE) fast

lemma accounting_makePubliclyDecryptable:
  "engine_accounting E bal dec \<Longrightarrow> makePubliclyDecryptable E h e = Some e' \<Longrightarrow>
   bal a e' = bal a e \<and> dec k e' = dec k e"
  unfolding engine_accounting_def by (elim conjE) fast

lemma accounting_checkSignatures:
  "engine_accounting E bal dec \<Longrightarrow>
   checkSignatures E [h] (abi_encode_uint64 c) p e = Some e' \<Longrightarrow>
   dec h e = unat c \<and> bal a e' = bal a e"
  unfolding engine_accounting_def by (elim conjE) fast

lemma stake_InrD:
  assumes "stake E a w s = Inr (m, s')"
  shows "\<not> w div STAKE_SCALE > uint64_max
     \<and> (\<exists>amt e1 e2. asEuint64 E (ucast (w div STAKE_SCALE)) (fhe s) = Some (amt, e1)
          \<and> mint E a amt e1 = Some (m, e2)
          \<and> s' = s\<lparr>ethBalance := ethBalance s + unat w, fhe := e2,
                    events := events s @ [Staked a w (ucast (w div STAKE_SCALE))]\<rparr>)"
proof -
  have ok: "\<not> (w = 0 \<or> w mod STAKE_SCALE \<noteq> 0 \<or> w div STAKE_SCALE > uint64_max)"
    using assms stake_rejected [of w E a s] by auto
  from assms show ?thesis
    using ok by (auto simp: stake_accepted [OF ok] split: option.splits)
qed

lemma minted_units:
  assumes "\<not> w div STAKE_SCALE > uint64_max"
  shows "unat (ucast (w div STAKE_SCALE) :: uint64) = unat w div 1000000000000"
  by (simp add: ucast_fits_64 [OF assms] unat_div unat_STAKE_SCALE)

lemma accounting_request_internal:
  assumes acc: "engine_accounting E bal dec"
    and r: "requestUnstake_internal E a amt s = Inr (h, s1)"
  shows "dec h (fhe s1) \<le> bal a (fhe s) \<and> bal a (fhe s1) = bal a (fhe s) - dec h (fhe s1)"
proof -
  from requestUnstake_internal_InrD [OF r] obtain e1 e2 where
    b: "burn E a amt (fhe s) = Some (h, e1)"
    and m: "makePubliclyDecryptable E h e1 = Some e2"
    and s1: "s1 = s\<lparr>unstakeRequests := (unstakeRequests s)(h := a), fhe := e2,
                events := events s @ [UnstakeRequested a h]\<rparr>"
    by blast
  from accounting_burn [OF acc b]
  have 1: "dec h e1 \<le> bal a (fhe s)" "bal a e1 = bal a (fhe s) - dec h e1" by simp_all
  from accounting_makePubliclyDecryptable [OF acc m]
  have 2: "bal a e2 = bal a e1" "dec h e2 = dec h e1" by simp_all
  from 1 2 s1 show ?thesis by simp
qed

lemma accounting_finalize:
  assumes acc: "engine_accounting E bal dec"
    and f: "finalizeUnstake E recv sender h u p s1 = Inr ((), s2)"
    and quiet: "\<forall>to v t t'. recv to v t = Some t' \<longrightarrow> fhe t' = fhe t"
  shows "dec h (fhe s1) = unat u \<and> bal a (fhe s2) = bal a (fhe s1)"
proof -
  from finalize_InrD [OF f] obtain e1 t' where
    v: "checkSignatures E [h] (abi_encode_uint64 u) p (fhe s1) = Some e1"
    and r: "recv (unstakeRequests s1 h) (ucast u * STAKE_SCALE)
           (s1\<lparr>unstakeRequests := (unstakeRequests s1)(h := 0), fhe := e1,
              ethBalance := ethBalance s1 - unat u * 1000000000000\<rparr>) = Some t'"
    and s2: "s2 = t'\<lparr>events := events t' @
                 [UnstakeFinalized (unstakeRequests s1 h) u (ucast u * STAKE_SCALE)]\<rparr>"
    by blast
  from accounting_checkSignatures [OF acc v]
  have 1: "dec h (fhe s1) = unat u" "bal a e1 = bal a (fhe s1)" by simp_all
  from quiet r have "fhe t' = e1" by fastforce
  with s2 have "fhe s2 = e1" by simp
  with 1 show ?thesis by simp
qed

text \<open>
  Claim C5, as stated, fails in its second half when the code of the recipient stakes
  while it receives: with a library that keeps the accounting contract, Alice holds
  two million units, requests one million and is finalized; her code stakes one unit
  during the transfer, and her balance decrypts to \<open>1000001\<close>, not to \<open>1000000\<close>.
\<close>

theorem unstake_balance_counterexample:
  "engine_accounting plain_engine (\<lambda>a e. unat (balance_of e a)) (\<lambda>h e. unat (cleartext e h))
   \<and> requestUnstake_external plain_engine alice 1000000 [1] staked = Inr (3, requested)
   \<and> finalizeUnstake plain_engine restaker bob 3 1000000 [] requested = Inr ((), restaked)
   \<and> unat (balance_of (fhe staked) alice) = 2000000
   \<and> unat (balance_of (fhe restaked) alice) \<noteq> 2000000 - unat (1000000 :: uint64)"
  using plain_engine_accounting scenario_request scenario_restake
  by (simp add: staked_def restaked_def)

text \<open>
  Claim C5, amended. With a library that keeps the accounting contract, a successful
  \<^verbatim>\<open>stake\<close> of \<open>w\<close> wei by an account whose balance decrypts to \<open>b\<close> leaves a balance that
  decrypts to \<open>b + w / 10^12\<close> and logs \<^verbatim>\<open>Staked\<close> with the staker, \<open>w\<close> and
  \<open>w / 10^12\<close>; a successful \<^verbatim>\<open>requestUnstake\<close>, in either overload, followed by a
  successful \<^verbatim>\<open>finalizeUnstake\<close> of its handle with clear value \<open>u\<close>, during which the
  recipient's code leaves the token alone, leaves a balance that decrypts to \<open>b - u\<close>,
  and \<open>u\<close> is at most \<open>b\<close>.
\<close>

theorem mint_burn_conservation:
  assumes acc: "engine_accounting E bal dec"
  shows "(stake E a w s = Inr (m, s') \<longrightarrow>
            bal a (fhe s') = bal a (fhe s) + unat w div 1000000000000
            \<and> events s' = events s @ [Staked a w (ucast (w div STAKE_SCALE))]
            \<and> unat (ucast (w div STAKE_SCALE) :: uint64) = unat w div 1000000000000)
     \<and> ((requestUnstake E a amt s = Inr (h, s1)
            \<or> requestUnstake_external E a x ip s = Inr (h, s1))
          \<and> finalizeUnstake E recv sender h u p s1 = Inr ((), s2)
          \<and> (\<forall>to v t t'. recv to v t = Some t' \<longrightarrow> fhe t' = fhe t) \<longrightarrow>
            unat u \<le> bal a (fhe s) \<and> bal a (fhe s2) = bal a (fhe s) - unat u)"
proof (intro conjI impI)
  assume st: "stake E a w s = Inr (m, s')"
  from stake_InrD [OF st] obtain amt e1 e2 where
    fits: "\<not> w div STAKE_SCALE > uint64_max"
    and enc: "asEuint64 E (ucast (w div STAKE_SCALE)) (fhe s) = Some (amt, e1)"
    and mi: "mint E a amt e1 = Some (m, e2)"
    and s': "s' = s\<lparr>ethBalance := ethBalance s + unat w, fhe := e2,
                    events := events s @ [Staked a w (ucast (w div STAKE_SCALE))]\<rparr>"
    by blast
  from accounting_asEuint64 [OF acc enc]
  have 1: "dec amt e1 = unat (ucast (w div STAKE_SCALE) :: uint64)"
    "bal a e1 = bal a (fhe s)" by simp_all
  from accounting_mint [OF acc mi]
  have 2: "bal a e2 = bal a e1 + dec amt e1" .
  from 1 2 s' minted_units [OF fits]
  show "bal a (fhe s') = bal a (fhe s) + unat w div 1000000000000" by simp
  from s' show "events s' = events s @ [Staked a w (ucast (w div STAKE_SCALE))]" by simp
  from minted_units [OF fits]
  show "unat (ucast (w div STAKE_SCALE) :: uint64) = unat w div 1000000000000" .
next
  assume h: "(requestUnstake E a amt s = Inr (h, s1)
            \<or> requestUnstake_external E a x ip s = Inr (h, s1))
          \<and> finalizeUnstake E recv sender h u p s1 = Inr ((), s2)
          \<and> (\<forall>to v t t'. recv to v t = Some t' \<longrightarrow> fhe t' = fhe t)"
  then have f: "finalizeUnstake E recv sender h u p s1 = Inr ((), s2)"
    and q: "\<forall>to v t t'. recv to v t = Some t' \<longrightarrow> fhe t' = fhe t" by blast+
  have r: "dec h (fhe s1) \<le> bal a (fhe s) \<and> bal a (fhe s1) = bal a (fhe s) - dec h (fhe s1)"
  proof -
    from h consider "requestUnstake E a amt s = Inr (h, s1)"
      | "requestUnstake_external E a x ip s = Inr (h, s1)" by blast
    then show ?thesis
    proof cases
      case 1
      from accounting_request_internal [OF acc requestUnstake_InrD [OF 1]] show ?thesis .
    next
      case 2
      from requestUnstake_external_InrD [OF 2] obtain amt' e0 where
        fe: "fromExternal E a x ip (fhe s) = Some (amt', e0)"
        and ri: "requestUnstake_internal E a amt' (s\<lparr>fhe := e0\<rparr>) = Inr (h, s1)" by blast
      from accounting_fromExternal [OF acc fe] have "bal a e0 = bal a (fhe s)" .
      with accounting_request_internal [OF acc ri] show ?thesis by simp
    qed
  qed
  from accounting_finalize [OF acc f q, of a] r
  show "unat u \<le> bal a (fhe s)" "bal a (fhe s2) = bal a (fhe s) - unat u" by simp_all
qed

lemma eoa_keeps_fhe: "\<forall>to v t t'. eoa to v t = Some t' \<longrightarrow> fhe t' = fhe t"
  by (simp add: eoa_def)

theorem mint_burn_conservation_witness:
  "unat (balance_of (fhe genesis) alice) = 0
   \<and> unat (balance_of (fhe staked) alice) = 2000000
   \<and> unat (balance_of (fhe finalized) alice) = 2000000 - 1000000"
proof -
  note t = mint_burn_conservation [OF plain_engine_accounting]
  have g: "unat (balance_of (fhe genesis) alice) = 0" by (simp add: genesis_def)
  from t [where a = alice and w = 2000000000000000000 and s = genesis and m = 1 and s' = staked,
      THEN conjunct1, rule_format, OF scenario_stake] g
  have s: "unat (balance_of (fhe staked) alice) = 2000000" by simp
  from t [where a = alice and s = staked and x = 1000000 and ip = "[1]" and h = 3
      and ?s1.0 = requested and recv = eoa and sender = bob and u = 1000000 and p = "[]"
      and ?s2.0 = finalized, THEN conjunct2, rule_format,
      OF conjI [OF disjI2 [OF scenario_request] conjI [OF scenario_finalize eoa_keeps_fhe]]] s
  have f: "unat (balance_of (fhe finalized) alice) = 2000000 - 1000000" by simp
  from g s f show ?thesis by simp
qed

theorem registry_invariant_witness:
  "registry_inv genesis Map.empty
   \<and> registry_inv staked Map.empty
   \<and> registry_inv requested [3 \<mapsto> alice]
   \<and> registry_inv finalized Map.empty
   \<and> alice \<noteq> 0"
proof -
  have g: "registry_inv genesis Map.empty" by (simp add: registry_inv_def genesis_def)
  have a: "alice \<noteq> 0" by (simp add: alice_def)
  from registry_invariant [OF g, where E = plain_engine and a = alice and m = 1 and s' = staked
      and v = 2000000000000000000, THEN conjunct1, rule_format, OF scenario_stake]
  have s: "registry_inv staked Map.empty" .
  from registry_invariant [OF s, where E = plain_engine and a = alice and x = 1000000
      and ip = "[1]" and b = 3 and s' = requested,
      THEN conjunct2, THEN conjunct2, THEN conjunct2, THEN conjunct1, rule_format,
      OF conjI [OF a scenario_request]]
  have r: "registry_inv requested [3 \<mapsto> alice]" by simp
  have e: "\<forall>to v t t'. eoa to v t = Some t' \<and> registry_inv t ([3 \<mapsto> alice](3 := None))
             \<longrightarrow> registry_inv t' Map.empty"
    by (simp add: eoa_def)
  from registry_invariant [OF r, where E = plain_engine and recv = eoa and sender = bob
      and h = 3 and c = 1000000 and p = "[]" and s' = finalized and live' = Map.empty,
      THEN conjunct2, THEN conjunct2, THEN conjunct2, THEN conjunct2, THEN conjunct1,
      rule_format, OF conjI [OF scenario_finalize e]]
  have f: "registry_inv finalized Map.empty" by simp
  from g s r f a show ?thesis by simp
qed

end
